theory Spec2Isabelle
  imports Main
begin

section \<open>Telemetry, configuration and observable effects\<close>

text \<open>
  The monitor loop of \<^verbatim>\<open>battmon.py\<close> (class \<^verbatim>\<open>MainRun\<close>) reads the battery through
  the methods of a \<^verbatim>\<open>BatteryValues\<close> object and acts through a
  \<^verbatim>\<open>BatteryNotifications\<close> object, \<^verbatim>\<open>os.popen\<close> and \<^verbatim>\<open>time.sleep\<close>. Both classes
  live outside the two source files, so the telemetry is a parameter of the model and
  every notification, command and sleep is recorded as an effect.

  A \<open>sample\<close> is what the six \<^verbatim>\<open>BatteryValues\<close> methods would answer at one instant;
  the fields carry the methods' names. \<^verbatim>\<open>battery_time()\<close> answers a string, the loop
  compares it with \<^verbatim>\<open>'Unknown'\<close>.
\<close>

record sample =
  is_battery_present :: bool
  is_ac_present :: bool
  is_battery_discharging :: bool
  is_battery_fully_charged :: bool
  battery_current_capacity :: int
  battery_time :: string

text \<open>
  The loop never stores a sample: every condition calls the methods again, one call per
  fact. The telemetry is therefore a sequence of samples indexed by the number of calls
  made so far: call number \<open>k\<close> (counted from 0) reads its field from \<open>tel k\<close>. A source
  that only changes while the loop sleeps is the special case of a sequence that is
  constant between two sleeps.
\<close>

type_synonym telemetry = "nat \<Rightarrow> sample"

text \<open>
  The attributes of \<^verbatim>\<open>MainRun\<close> that the loop reads. \<open>timeout\<close> is the keyword argument
  in seconds; \<^verbatim>\<open>__init__\<close> stores \<^verbatim>\<open>kwargs.get("timeout") * 1000\<close>.
\<close>

record config =
  debug :: bool
  test :: bool
  play_sound :: bool
  timeout :: int
  battery_update_timeout :: int
  battery_low_value :: int
  battery_critical_value :: int
  battery_minimal_value :: int
  set_no_battery_remainder :: int

definition timeout_ms :: "config \<Rightarrow> int" where
  "timeout_ms cfg = timeout cfg * 1000"

text \<open>
  The notifications are the methods of \<^verbatim>\<open>BatteryNotifications\<close> the loop calls, with the
  telemetry values passed to them. The last one is the \<^verbatim>\<open>notify-send\<close> command line the
  loop builds itself before the power action; its third argument is the display time in
  milliseconds, as is the third argument of \<open>Minimal_battery_level\<close>.
\<close>

datatype notification =
    Battery_discharging int string
  | Low_capacity_level int string
  | Critical_battery_level int string
  | Minimal_battery_level int string int
  | Full_battery
  | Battery_charging int string
  | Battery_removed
  | Battery_plugged
  | No_battery
  | Last_chance int string int

datatype event =
    Sleep int
  | Notify notification
  | Play_sound
  | Lock_screen
  | Power_action
  | Print_test

text \<open>
  \<open>Sleep d\<close> is \<^verbatim>\<open>time.sleep(d)\<close>; \<open>Play_sound\<close>, \<open>Lock_screen\<close> and \<open>Power_action\<close> are
  \<^verbatim>\<open>os.popen\<close> of \<^verbatim>\<open>__sound_command\<close>, \<^verbatim>\<open>__screenlock_command\<close> and
  \<^verbatim>\<open>__minimal_battery_level_command\<close>; \<open>Print_test\<close> is the message of the dry run.
  The debug messages are not recorded, but the telemetry calls they make are counted.
\<close>

record world =
  calls :: nat
  effects :: "event list"

definition start :: world where
  "start = \<lparr>calls = 0, effects = []\<rparr>"

type_synonym 'a query = "world \<Rightarrow> 'a \<times> world"

definition ask :: "telemetry \<Rightarrow> (sample \<Rightarrow> 'a) \<Rightarrow> 'a query" where
  "ask tel field w = (field (tel (calls w)), w\<lparr>calls := Suc (calls w)\<rparr>)"

definition effect :: "event \<Rightarrow> world \<Rightarrow> world" where
  "effect e w = w\<lparr>effects := effects w @ [e]\<rparr>"

text \<open>Python's \<^verbatim>\<open>not\<close> and short-circuit \<^verbatim>\<open>and\<close> over conditions that call the telemetry.\<close>

definition py_not :: "bool query \<Rightarrow> bool query" where
  "py_not p w = (let (b, w1) = p w in (\<not> b, w1))"

definition py_and :: "bool query \<Rightarrow> bool query \<Rightarrow> bool query" where
  "py_and p q w = (let (b, w1) = p w in if b then q w1 else (False, w1))"

text \<open>
  How a block of the loop ends: it falls through to the next statement, it executes
  \<^verbatim>\<open>break\<close> for an enclosing loop, or the run is cut off because its iteration budget
  (the fuel of the unbounded \<^verbatim>\<open>while\<close> loops) is used up.
\<close>

datatype flow = Next | Break | Fuel_out

definition and_then :: "flow \<times> world \<Rightarrow> (world \<Rightarrow> flow \<times> world) \<Rightarrow> flow \<times> world" where
  "and_then r f = (case r of (Next, w) \<Rightarrow> f w | (Break, w) \<Rightarrow> (Break, w) | (Fuel_out, w) \<Rightarrow> (Fuel_out, w))"

section \<open>The stabilisation wait\<close>

text \<open>
  \<^verbatim>\<open>__check_battery_update_times\<close> (lines 407-417): while the time reads
  \<^verbatim>\<open>'Unknown'\<close>, sleep \<^verbatim>\<open>battery_update_timeout\<close> seconds and read again; leave the loop
  when it is still unknown. In debug mode each message reads the time once more.
\<close>

fun check_battery_update_times :: "config \<Rightarrow> telemetry \<Rightarrow> nat \<Rightarrow> world \<Rightarrow> flow \<times> world" where
  "check_battery_update_times cfg tel 0 w = (Fuel_out, w)"
| "check_battery_update_times cfg tel (Suc n) w =
     (let (t, w1) = ask tel battery_time w in
      if t = ''Unknown'' then
        let w2 = (if debug cfg then snd (ask tel battery_time w1) else w1);
            w3 = effect (Sleep (battery_update_timeout cfg)) w2;
            (t', w4) = ask tel battery_time w3
        in if t' = ''Unknown''
           then (Next, if debug cfg then snd (ask tel battery_time w4) else w4)
           else check_battery_update_times cfg tel n w4
      else (Next, w1))"

section \<open>The conditions of the main loop\<close>

text \<open>Line 425: \<^verbatim>\<open>not is_ac_present() and is_battery_discharging()\<close>.\<close>

definition on_battery :: "telemetry \<Rightarrow> bool query" where
  "on_battery tel = py_and (py_not (ask tel is_ac_present)) (ask tel is_battery_discharging)"

text \<open>Lines 427-428 and 437-438: \<^verbatim>\<open>capacity > low and not is_ac_present()\<close>.\<close>

definition discharging_level :: "config \<Rightarrow> telemetry \<Rightarrow> bool query" where
  "discharging_level cfg tel =
     py_and (ask tel (\<lambda>s. battery_current_capacity s > battery_low_value cfg))
            (py_not (ask tel is_ac_present))"

text \<open>
  Lines 442-443 and 452-453: \<^verbatim>\<open>low >= capacity > critical and not is_ac_present()\<close>.
  A chained comparison calls \<^verbatim>\<open>battery_current_capacity()\<close> once.
\<close>

definition low_level :: "config \<Rightarrow> telemetry \<Rightarrow> bool query" where
  "low_level cfg tel =
     py_and (ask tel (\<lambda>s. battery_low_value cfg \<ge> battery_current_capacity s
                          \<and> battery_current_capacity s > battery_critical_value cfg))
            (py_not (ask tel is_ac_present))"

text \<open>Lines 457-458 and 467-468: \<^verbatim>\<open>critical >= capacity > minimal and not is_ac_present()\<close>.\<close>

definition critical_level :: "config \<Rightarrow> telemetry \<Rightarrow> bool query" where
  "critical_level cfg tel =
     py_and (ask tel (\<lambda>s. battery_critical_value cfg \<ge> battery_current_capacity s
                          \<and> battery_current_capacity s > battery_minimal_value cfg))
            (py_not (ask tel is_ac_present))"

text \<open>
  Lines 472-473, and again at 484, 488, 493, 502, 522 and 539:
  \<^verbatim>\<open>capacity <= minimal and not is_ac_present()\<close>.
\<close>

definition hibernate_level :: "config \<Rightarrow> telemetry \<Rightarrow> bool query" where
  "hibernate_level cfg tel =
     py_and (ask tel (\<lambda>s. battery_current_capacity s \<le> battery_minimal_value cfg))
            (py_not (ask tel is_ac_present))"

text \<open>Line 548: \<^verbatim>\<open>is_ac_present() and not is_battery_discharging()\<close>.\<close>

definition ac_connected :: "telemetry \<Rightarrow> bool query" where
  "ac_connected tel = py_and (ask tel is_ac_present) (py_not (ask tel is_battery_discharging))"

text \<open>Lines 550-552 and 561-563: AC present, fully charged, not discharging.\<close>

definition full_charged :: "telemetry \<Rightarrow> bool query" where
  "full_charged tel =
     py_and (ask tel is_ac_present)
       (py_and (ask tel is_battery_fully_charged) (py_not (ask tel is_battery_discharging)))"

text \<open>Lines 575-577 and 587-589: AC present, not fully charged, not discharging.\<close>

definition charging :: "telemetry \<Rightarrow> bool query" where
  "charging tel =
     py_and (ask tel is_ac_present)
       (py_and (py_not (ask tel is_battery_fully_charged))
               (py_not (ask tel is_battery_discharging)))"

text \<open>Line 601: \<^verbatim>\<open>not is_battery_present() and is_ac_present()\<close>.\<close>

definition no_battery :: "telemetry \<Rightarrow> bool query" where
  "no_battery tel = py_and (py_not (ask tel is_battery_present)) (ask tel is_ac_present)"

text \<open>
  A notification that carries the capacity and the time: the two arguments are two more
  telemetry calls, capacity first.
\<close>

definition notify_values :: "telemetry \<Rightarrow> (int \<Rightarrow> string \<Rightarrow> notification) \<Rightarrow> world \<Rightarrow> world" where
  "notify_values tel mk w =
     (let (c, w1) = ask tel battery_current_capacity w;
          (t, w2) = ask tel battery_time w1
      in effect (Notify (mk c t)) w2)"

section \<open>The hold loops\<close>

text \<open>
  Lines 437-439, 452-454 and 467-469: \<^verbatim>\<open>while <level condition>: time.sleep(1)\<close>.
\<close>

fun hold_loop :: "bool query \<Rightarrow> nat \<Rightarrow> world \<Rightarrow> flow \<times> world" where
  "hold_loop cond 0 w = (Fuel_out, w)"
| "hold_loop cond (Suc n) w =
     (let (b, w1) = cond w in
      if b then hold_loop cond n (effect (Sleep 1) w1) else (Next, w1))"

text \<open>
  Lines 561-572 and 587-598: the hold loops of the full and the charging battery also
  watch for the removal of the battery; \<^verbatim>\<open>time.sleep(self.__timeout / 1000)\<close> sleeps the
  notification timeout.
\<close>

fun ac_hold_loop :: "config \<Rightarrow> telemetry \<Rightarrow> bool query \<Rightarrow> nat \<Rightarrow> world \<Rightarrow> flow \<times> world" where
  "ac_hold_loop cfg tel cond 0 w = (Fuel_out, w)"
| "ac_hold_loop cfg tel cond (Suc n) w =
     (let (b, w1) = cond w in
      if b then
        let (p, w2) = ask tel is_battery_present w1 in
        if \<not> p
        then (Next, effect (Sleep (timeout_ms cfg div 1000)) (effect (Notify Battery_removed) w2))
        else ac_hold_loop cfg tel cond n (effect (Sleep 1) w2)
      else (Next, w1))"

section \<open>The escalation at the minimal level\<close>

text \<open>
  Lines 491-500, the first warning: \<^verbatim>\<open>for i in range(5)\<close>, each round checks the
  level again, then sleeps two seconds and plays the sound; a failed check leaves the
  \<^verbatim>\<open>for\<close> loop only. The first argument counts the rounds still to run.
\<close>

fun first_warning :: "config \<Rightarrow> telemetry \<Rightarrow> nat \<Rightarrow> world \<Rightarrow> world" where
  "first_warning cfg tel 0 w = w"
| "first_warning cfg tel (Suc k) w =
     (let (b, w1) = hibernate_level cfg tel w in
      if b then first_warning cfg tel k (effect Play_sound (effect (Sleep 2) w1)) else w1)"

text \<open>
  Lines 501-520, "one more check if ac was plugged": sleep two seconds, play the sound,
  send the last notification with \<^verbatim>\<open>-t 10000\<close> (its text reads the capacity and the time),
  sleep ten seconds.
\<close>

definition last_chance :: "config \<Rightarrow> telemetry \<Rightarrow> world \<Rightarrow> world" where
  "last_chance cfg tel w =
     (let (b, w1) = hibernate_level cfg tel w in
      if b then
        let w2 = effect Play_sound (effect (Sleep 2) w1);
            (c, w3) = ask tel battery_current_capacity w2;
            (t, w4) = ask tel battery_time w3
        in effect (Sleep 10) (effect (Notify (Last_chance c t (10 * 1000))) w4)
      else w1)"

text \<open>Lines 526-528: \<^verbatim>\<open>for i in range(4): time.sleep(5); os.popen(sound_command)\<close>.\<close>

fun final_beeps :: "nat \<Rightarrow> world \<Rightarrow> world" where
  "final_beeps 0 w = w"
| "final_beeps (Suc k) w = final_beeps k (effect Play_sound (effect (Sleep 5) w))"

text \<open>
  Lines 521-533, "LAST CHECK before hibernating": on success the four beeps, one second
  of sleep, the screen lock and the power command; otherwise \<^verbatim>\<open>break\<close>, which leaves
  the \<^verbatim>\<open>while is_battery_present()\<close> loop of line 423.
\<close>

definition lock_and_hibernate :: "config \<Rightarrow> telemetry \<Rightarrow> world \<Rightarrow> flow \<times> world" where
  "lock_and_hibernate cfg tel w =
     (let (b, w1) = hibernate_level cfg tel w in
      if b then (Next, effect Power_action (effect Lock_screen (effect (Sleep 1) (final_beeps 4 w1))))
      else (Break, w1))"

text \<open>
  Lines 536-541, the dry run: five rounds, each plays the sound if sounds are enabled and
  sleeps two seconds if the level check still holds.
\<close>

fun test_rounds :: "config \<Rightarrow> telemetry \<Rightarrow> nat \<Rightarrow> world \<Rightarrow> world" where
  "test_rounds cfg tel 0 w = w"
| "test_rounds cfg tel (Suc k) w =
     (let w1 = (if play_sound cfg then effect Play_sound w else w);
          (b, w2) = hibernate_level cfg tel w1
      in test_rounds cfg tel k (if b then effect (Sleep 2) w2 else w2))"

text \<open>
  Lines 483-545, what follows the notification of the minimal level: "check once more",
  then the real thing (with its own check at line 488) or the dry run.
\<close>

definition minimal_escalation :: "config \<Rightarrow> telemetry \<Rightarrow> world \<Rightarrow> flow \<times> world" where
  "minimal_escalation cfg tel w =
     (let (b, w1) = hibernate_level cfg tel w in
      if b then
        if \<not> test cfg then
          let (b', w2) = hibernate_level cfg tel w1 in
          if b' then lock_and_hibernate cfg tel (last_chance cfg tel (first_warning cfg tel 5 w2))
          else (Next, w2)
        else (Next, effect (Sleep 10) (effect Print_test (test_rounds cfg tel 5 w1)))
      else (Next, w1))"

section \<open>The main loop\<close>

text \<open>
  Lines 425-545, the battery is discharging without AC: the four levels are the branches
  of one \<^verbatim>\<open>if\<close>/\<^verbatim>\<open>elif\<close> chain. Each branch waits for the time to settle, notifies, and
  holds (the minimal level escalates instead of holding).
\<close>

definition discharging_block :: "config \<Rightarrow> telemetry \<Rightarrow> nat \<Rightarrow> world \<Rightarrow> flow \<times> world" where
  "discharging_block cfg tel n w =
     (let (d, w1) = on_battery tel w in
      if d then
        let (b1, w2) = discharging_level cfg tel w1 in
        if b1 then
          and_then (check_battery_update_times cfg tel n w2)
            (\<lambda>w3. hold_loop (discharging_level cfg tel) n (notify_values tel Battery_discharging w3))
        else
          let (b2, w3) = low_level cfg tel w2 in
          if b2 then
            and_then (check_battery_update_times cfg tel n w3)
              (\<lambda>w4. hold_loop (low_level cfg tel) n (notify_values tel Low_capacity_level w4))
          else
            let (b3, w4) = critical_level cfg tel w3 in
            if b3 then
              and_then (check_battery_update_times cfg tel n w4)
                (\<lambda>w5. hold_loop (critical_level cfg tel) n
                         (notify_values tel Critical_battery_level w5))
            else
              let (b4, w5) = hibernate_level cfg tel w4 in
              if b4 then
                and_then (check_battery_update_times cfg tel n w5)
                  (\<lambda>w6. minimal_escalation cfg tel
                           (notify_values tel (\<lambda>c t. Minimal_battery_level c t (10 * 1000)) w6))
              else (Next, w5)
      else (Next, w1))"

text \<open>
  Lines 547-598, AC is connected: two separate \<^verbatim>\<open>if\<close> statements, so the charging check
  also runs after the hold loop of the full battery has ended. The full battery sleeps
  \<^verbatim>\<open>battery_update_timeout\<close> seconds instead of calling the stabilisation wait
  (line 557: "simulate self.__check_battery_update_times() behavior").
\<close>

definition ac_block :: "config \<Rightarrow> telemetry \<Rightarrow> nat \<Rightarrow> world \<Rightarrow> flow \<times> world" where
  "ac_block cfg tel n w =
     (let (a, w1) = ac_connected tel w in
      if a then
        and_then
          (let (f, w2) = full_charged tel w1 in
           if f then
             ac_hold_loop cfg tel (full_charged tel) n
               (effect (Notify Full_battery) (effect (Sleep (battery_update_timeout cfg)) w2))
           else (Next, w2))
          (\<lambda>w3. let (c, w4) = charging tel w3 in
                 if c then
                   and_then (check_battery_update_times cfg tel n w4)
                     (\<lambda>w5. ac_hold_loop cfg tel (charging tel) n
                              (notify_values tel Battery_charging w5))
                 else (Next, w4))
      else (Next, w1))"

text \<open>
  Line 423, \<^verbatim>\<open>while self.__battery_values.is_battery_present()\<close>: the two blocks in
  sequence. The \<^verbatim>\<open>break\<close> of line 533 ends this loop.
\<close>

fun battery_loop :: "config \<Rightarrow> telemetry \<Rightarrow> nat \<Rightarrow> world \<Rightarrow> flow \<times> world" where
  "battery_loop cfg tel 0 w = (Fuel_out, w)"
| "battery_loop cfg tel (Suc n) w =
     (let (p, w1) = ask tel is_battery_present w in
      if p then
        (case and_then (discharging_block cfg tel n w1) (ac_block cfg tel n) of
           (Next, w2) \<Rightarrow> battery_loop cfg tel n w2
         | (Break, w2) \<Rightarrow> (Next, w2)
         | (Fuel_out, w2) \<Rightarrow> (Fuel_out, w2))
      else (Next, w1))"

text \<open>
  Lines 610-638, the loop without a battery. \<open>c\<close> is \<^verbatim>\<open>no_battery_counter\<close>. With a
  reminder of \<open>R > 0\<close> minutes a round sleeps one second, counts, announces a battery that
  came back, or repeats the notification when the counter equals \<open>R * 60\<close>; with \<open>R = 0\<close>
  it sleeps and announces a battery that came back.
\<close>

fun no_battery_loop :: "config \<Rightarrow> telemetry \<Rightarrow> nat \<Rightarrow> int \<Rightarrow> world \<Rightarrow> flow \<times> world" where
  "no_battery_loop cfg tel 0 c w = (Fuel_out, w)"
| "no_battery_loop cfg tel (Suc n) c w =
     (let (p, w1) = ask tel is_battery_present w in
      if \<not> p then
        if set_no_battery_remainder cfg > 0 then
          let remainder_time_in_sek = set_no_battery_remainder cfg * 60;
              w2 = effect (Sleep 1) w1;
              c' = c + 1;
              (p', w3) = ask tel is_battery_present w2
          in if p'
             then (Next, effect (Sleep (timeout_ms cfg div 1000)) (effect (Notify Battery_plugged) w3))
             else
               let (r, w4) = py_and (py_not (ask tel is_battery_present))
                                    (\<lambda>v. (c' = remainder_time_in_sek, v)) w3
               in if r then no_battery_loop cfg tel n 1 (effect (Notify No_battery) w4)
                  else no_battery_loop cfg tel n c' w4
        else
          let w2 = effect (Sleep 1) w1;
              (p', w3) = ask tel is_battery_present w2
          in if p'
             then (Next, effect (Sleep (timeout_ms cfg div 1000)) (effect (Notify Battery_plugged) w3))
             else no_battery_loop cfg tel n c w3
      else (Next, w1))"

text \<open>
  Lines 600-608: the check for a missing battery, its notification, and the loop above
  started with the counter at 1.
\<close>

definition no_battery_block :: "config \<Rightarrow> telemetry \<Rightarrow> nat \<Rightarrow> world \<Rightarrow> flow \<times> world" where
  "no_battery_block cfg tel n w =
     (let (b, w1) = no_battery tel w in
      if b then no_battery_loop cfg tel n 1 (effect (Notify No_battery) w1)
      else (Next, w1))"

text \<open>
  Line 421, \<^verbatim>\<open>while True\<close>: \<^verbatim>\<open>run_main_loop\<close> never returns. With \<open>n\<close> as the budget of
  every loop, the model returns the world reached when the budget is used up; its
  effects are a prefix of what the program does.
\<close>

fun run_main_loop :: "config \<Rightarrow> telemetry \<Rightarrow> nat \<Rightarrow> world \<Rightarrow> world" where
  "run_main_loop cfg tel 0 w = w"
| "run_main_loop cfg tel (Suc n) w =
     (case and_then (battery_loop cfg tel n w) (no_battery_block cfg tel n) of
        (Fuel_out, w1) \<Rightarrow> w1
      | (_, w1) \<Rightarrow> run_main_loop cfg tel n w1)"

section \<open>The states of the battery\<close>

text \<open>
  The loop has no state variable: the state is the branch it is in. The eight names are
  those of the specification.
\<close>

datatype power_state = NoBattery | Discharging | Low | Critical | Minimal | Full | Charging | ACIdle

text \<open>
  The thresholds the command line accepts (lines 863-904): each between 1 and 100, and
  minimal below critical below low.
\<close>

definition valid_thresholds :: "config \<Rightarrow> bool" where
  "valid_thresholds cfg =
     (0 < battery_minimal_value cfg \<and> battery_minimal_value cfg < battery_critical_value cfg
      \<and> battery_critical_value cfg < battery_low_value cfg \<and> battery_low_value cfg \<le> 100)"

text \<open>
  The guards under which the loop reaches the notification of a state, read on one
  sample: the guard of the enclosing \<^verbatim>\<open>while\<close> or \<^verbatim>\<open>if\<close>, then the guard of the branch
  (lines 423-428, 442-443, 457-458, 472-473, 548-552, 575-577, 601). The full and the
  charging branch lie inside \<^verbatim>\<open>while is_battery_present()\<close>. \<open>ACIdle\<close> has no branch.
\<close>

fun branch_condition :: "config \<Rightarrow> sample \<Rightarrow> power_state \<Rightarrow> bool" where
  "branch_condition cfg s NoBattery = (\<not> is_battery_present s \<and> is_ac_present s)"
| "branch_condition cfg s Discharging =
     (is_battery_present s \<and> (\<not> is_ac_present s \<and> is_battery_discharging s)
      \<and> (battery_current_capacity s > battery_low_value cfg \<and> \<not> is_ac_present s))"
| "branch_condition cfg s Low =
     (is_battery_present s \<and> (\<not> is_ac_present s \<and> is_battery_discharging s)
      \<and> (battery_low_value cfg \<ge> battery_current_capacity s
          \<and> battery_current_capacity s > battery_critical_value cfg \<and> \<not> is_ac_present s))"
| "branch_condition cfg s Critical =
     (is_battery_present s \<and> (\<not> is_ac_present s \<and> is_battery_discharging s)
      \<and> (battery_critical_value cfg \<ge> battery_current_capacity s
          \<and> battery_current_capacity s > battery_minimal_value cfg \<and> \<not> is_ac_present s))"
| "branch_condition cfg s Minimal =
     (is_battery_present s \<and> (\<not> is_ac_present s \<and> is_battery_discharging s)
      \<and> (battery_current_capacity s \<le> battery_minimal_value cfg \<and> \<not> is_ac_present s))"
| "branch_condition cfg s Full =
     (is_battery_present s \<and> (is_ac_present s \<and> \<not> is_battery_discharging s)
      \<and> (is_ac_present s \<and> is_battery_fully_charged s \<and> \<not> is_battery_discharging s))"
| "branch_condition cfg s Charging =
     (is_battery_present s \<and> (is_ac_present s \<and> \<not> is_battery_discharging s)
      \<and> (is_ac_present s \<and> \<not> is_battery_fully_charged s \<and> \<not> is_battery_discharging s))"
| "branch_condition cfg s ACIdle = False"

text \<open>The entry condition of a state; \<open>ACIdle\<close> is entered when no branch is.\<close>

definition entry_condition :: "config \<Rightarrow> sample \<Rightarrow> power_state \<Rightarrow> bool" where
  "entry_condition cfg s st =
     (case st of
        ACIdle \<Rightarrow> list_all (\<lambda>st'. \<not> branch_condition cfg s st')
                    [NoBattery, Discharging, Low, Critical, Minimal, Full, Charging]
      | _ \<Rightarrow> branch_condition cfg s st)"



section \<open>Concrete configurations and telemetry\<close>

text \<open>The default options of lines 654-671.\<close>

definition default_config :: config where
  "default_config =
     \<lparr>debug = False, test = False, play_sound = True, timeout = 6,
      battery_update_timeout = 6, battery_low_value = 23, battery_critical_value = 14,
      battery_minimal_value = 7, set_no_battery_remainder = 0\<rparr>"

text \<open>A sample written positionally: battery, AC, discharging, full, capacity, time.\<close>

definition reading :: "bool \<Rightarrow> bool \<Rightarrow> bool \<Rightarrow> bool \<Rightarrow> int \<Rightarrow> string \<Rightarrow> sample" where
  "reading p a d f c t =
     \<lparr>is_battery_present = p, is_ac_present = a, is_battery_discharging = d,
      is_battery_fully_charged = f, battery_current_capacity = c, battery_time = t\<rparr>"

text \<open>The default options with the dry run switched on (option \<^verbatim>\<open>--test\<close>).\<close>

definition test_config :: config where
  "test_config = default_config\<lparr>test := True\<rparr>"

text \<open>The default options with a reminder of one minute for the missing battery.\<close>

definition reminder_config :: config where
  "reminder_config = default_config\<lparr>set_no_battery_remainder := 1\<rparr>"

text \<open>A battery at 5 percent without AC, the same on every call.\<close>

definition minimal_steady :: telemetry where
  "minimal_steady = (\<lambda>_. reading True False True False 5 ''0:10'')"

text \<open>
  The same battery, but the call number 16 sees the AC adapter: in a run from \<open>start\<close>
  this is the AC reading of the first round of the first warning (line 493).
\<close>

definition ac_flicker :: telemetry where
  "ac_flicker i = reading True (i = 16) True False 5 ''0:10''"

text \<open>A battery at 5 percent with the AC adapter seen on every call.\<close>

definition ac_back :: telemetry where
  "ac_back = (\<lambda>_. reading True True True False 5 ''0:10'')"

text \<open>
  A discharging battery at 50 percent whose time reads \<^verbatim>\<open>'Unknown'\<close> on the odd calls and
  a value on the even ones.
\<close>

definition alternating :: telemetry where
  "alternating i = reading True False True False 50 (if odd i then ''Unknown'' else ''2:00'')"

text \<open>A discharging battery at 50 percent with a known time.\<close>

definition discharging_steady :: telemetry where
  "discharging_steady = (\<lambda>_. reading True False True False 50 ''2:00'')"

text \<open>A full battery on AC whose time is known.\<close>

definition full_known :: telemetry where
  "full_known = (\<lambda>_. reading True True False True 100 ''0:00'')"

text \<open>No battery, AC connected, on every call.\<close>

definition no_battery_steady :: telemetry where
  "no_battery_steady = (\<lambda>_. reading False True False False 0 ''Unknown'')"

text \<open>
  No battery on the calls 0, 1 and 2, a battery from call 3 on: in a run from \<open>start\<close> the
  calls 0 to 2 are those of lines 423 and 601, call 3 is the first evaluation of
  \<^verbatim>\<open>while not is_battery_present()\<close> (line 610).
\<close>

definition battery_returns :: telemetry where
  "battery_returns i = (if i < 3 then reading False True False False 0 ''Unknown''
                        else reading True True True False 50 ''1:00'')"

section \<open>Observations on a run\<close>

text \<open>The screen lock and the power command among the effects, in order.\<close>

definition power_commands :: "event list \<Rightarrow> event list" where
  "power_commands es = filter (\<lambda>e. e = Lock_screen \<or> e = Power_action) es"

text \<open>The notifications among the effects, in order.\<close>

fun notifications :: "event list \<Rightarrow> notification list" where
  "notifications [] = []"
| "notifications (Notify nt # es) = nt # notifications es"
| "notifications (_ # es) = notifications es"

text \<open>
  The times at which the notification of the missing battery is sent: the seconds slept
  so far, starting from \<open>t\<close>. The time the calls themselves take is not counted.
\<close>

fun no_battery_times :: "int \<Rightarrow> event list \<Rightarrow> int list" where
  "no_battery_times t [] = []"
| "no_battery_times t (Sleep d # es) = no_battery_times (t + d) es"
| "no_battery_times t (Notify No_battery # es) = t # no_battery_times t es"
| "no_battery_times t (_ # es) = no_battery_times t es"

text \<open>The minimal level holds on every call: capacity at most the threshold, no AC.\<close>

definition minimal_everywhere :: "config \<Rightarrow> telemetry \<Rightarrow> bool" where
  "minimal_everywhere cfg tel =
     (\<forall>i. battery_current_capacity (tel i) \<le> battery_minimal_value cfg \<and> \<not> is_ac_present (tel i))"

text \<open>
  From call \<open>p\<close> on the AC adapter is seen on every call, or from call \<open>p\<close> on the capacity
  is above the minimal threshold on every call.
\<close>

definition defused :: "config \<Rightarrow> telemetry \<Rightarrow> nat \<Rightarrow> bool" where
  "defused cfg tel p =
     ((\<forall>i\<ge>p. is_ac_present (tel i))
      \<or> (\<forall>i\<ge>p. battery_current_capacity (tel i) > battery_minimal_value cfg))"

text \<open>The entry condition of a state holds on every call.\<close>

definition holds_throughout :: "config \<Rightarrow> telemetry \<Rightarrow> power_state \<Rightarrow> bool" where
  "holds_throughout cfg tel st = (\<forall>i. entry_condition cfg (tel i) st)"

text \<open>
  The notification of a state, given the capacity and the time passed to it (lines 434,
  449, 464, 479, 559, 583 and 603).
\<close>

fun entry_events :: "power_state \<Rightarrow> int \<Rightarrow> string \<Rightarrow> event list" where
  "entry_events NoBattery c t = [Notify No_battery]"
| "entry_events Discharging c t = [Notify (Battery_discharging c t)]"
| "entry_events Low c t = [Notify (Low_capacity_level c t)]"
| "entry_events Critical c t = [Notify (Critical_battery_level c t)]"
| "entry_events Minimal c t = [Notify (Minimal_battery_level c t (10 * 1000))]"
| "entry_events Full c t = [Notify Full_battery]"
| "entry_events Charging c t = [Notify (Battery_charging c t)]"
| "entry_events ACIdle c t = []"

text \<open>
  The number of telemetry calls an iteration of the loop of line 423 makes before it
  reaches the notification stanza of a state, when every call satisfies the entry
  condition of that state: one for line 423, then the guards up to the branch, each
  cut short by \<^verbatim>\<open>and\<close> where it fails.
\<close>

fun calls_before_wait :: "power_state \<Rightarrow> nat" where
  "calls_before_wait Discharging = 5"
| "calls_before_wait Low = 6"
| "calls_before_wait Critical = 7"
| "calls_before_wait Minimal = 8"
| "calls_before_wait Full = 7"
| "calls_before_wait Charging = 9"
| "calls_before_wait _ = 0"

definition at_wait :: "power_state \<Rightarrow> world \<Rightarrow> world" where
  "at_wait st w = w\<lparr>calls := calls w + calls_before_wait st\<rparr>"

text \<open>
  The transition protocol as the specification words it (section 4.2), uniformly for a
  state \<open>st\<close>: the stabilisation wait, then the notification of the state with the values
  read after the wait, then the hold loop, which sleeps one second per round. When the
  budget ends inside the wait nothing follows it.
\<close>

definition entry_trace :: "config \<Rightarrow> telemetry \<Rightarrow> nat \<Rightarrow> power_state \<Rightarrow> world \<Rightarrow> event list" where
  "entry_trace cfg tel n st w =
     (let r = check_battery_update_times cfg tel n (at_wait st w); v = snd r
      in effects v @
           (if fst r = Next
            then entry_events st (battery_current_capacity (tel (calls v)))
                                 (battery_time (tel (Suc (calls v))))
                 @ replicate n (Sleep 1)
            else []))"

text \<open>
  Phase B of the escalation as the specification words it: the sound, the last
  notification with a display time of ten seconds, a sleep of ten seconds.
\<close>

definition claimed_phase_b :: "int \<Rightarrow> string \<Rightarrow> event list" where
  "claimed_phase_b c t = [Play_sound, Notify (Last_chance c t (10 * 1000)), Sleep 10]"

section \<open>Basic facts\<close>

lemma calls_effect [simp]: "calls (effect e w) = calls w"
  by (simp add: effect_def)

lemma effects_effect [simp]: "effects (effect e w) = effects w @ [e]"
  by (simp add: effect_def)

lemma and_then_Next [simp]: "and_then (Next, w) f = f w"
  and and_then_Break [simp]: "and_then (Break, w) f = (Break, w)"
  and and_then_Fuel_out [simp]: "and_then (Fuel_out, w) f = (Fuel_out, w)"
  by (simp_all add: and_then_def)

subsection \<open>A sample that enters no branch\<close>

lemma idle_sample:
  assumes "entry_condition cfg s ACIdle"
  shows "is_battery_present s \<Longrightarrow> \<not> (\<not> is_ac_present s \<and> is_battery_discharging s)"
    and "is_battery_present s \<Longrightarrow> \<not> (is_ac_present s \<and> \<not> is_battery_discharging s)"
    and "\<not> is_battery_present s \<Longrightarrow> \<not> is_ac_present s"
  using assms by (auto simp add: entry_condition_def)

lemma idle_discharging_block:
  assumes "\<not> (\<not> is_ac_present s \<and> is_battery_discharging s)"
  shows "fst (discharging_block cfg (\<lambda>_. s) n w) = Next"
    and "effects (snd (discharging_block cfg (\<lambda>_. s) n w)) = effects w"
  using assms
  by (auto simp add: discharging_block_def on_battery_def py_and_def py_not_def ask_def Let_def)

lemma idle_ac_block:
  assumes "\<not> (is_ac_present s \<and> \<not> is_battery_discharging s)"
  shows "fst (ac_block cfg (\<lambda>_. s) n w) = Next"
    and "effects (snd (ac_block cfg (\<lambda>_. s) n w)) = effects w"
  using assms
  by (auto simp add: ac_block_def ac_connected_def py_and_def py_not_def ask_def Let_def)

lemma idle_battery_loop:
  assumes "entry_condition cfg s ACIdle"
  shows "effects (snd (battery_loop cfg (\<lambda>_. s) n w)) = effects w"
proof (induction n arbitrary: w)
  case 0
  show ?case by simp
next
  case (Suc n)
  show ?case
  proof (cases "is_battery_present s")
    case False
    then show ?thesis by (simp add: ask_def)
  next
    case True
    let ?w1 = "snd (ask (\<lambda>_. s) is_battery_present w)"
    obtain w2 where d: "discharging_block cfg (\<lambda>_. s) n ?w1 = (Next, w2)" and e2: "effects w2 = effects w"
      using idle_discharging_block [OF idle_sample(1) [OF assms True], of cfg n ?w1]
      by (cases "discharging_block cfg (\<lambda>_. s) n ?w1") (simp add: ask_def)
    obtain w3 where a: "ac_block cfg (\<lambda>_. s) n w2 = (Next, w3)" and e3: "effects w3 = effects w"
      using idle_ac_block [OF idle_sample(2) [OF assms True], of cfg n w2] e2
      by (cases "ac_block cfg (\<lambda>_. s) n w2") simp
    show ?thesis
      using True d a e3 Suc.IH [of w3] by (simp add: ask_def)
  qed
qed

lemma idle_no_battery_block:
  assumes "entry_condition cfg s ACIdle"
  shows "fst (no_battery_block cfg (\<lambda>_. s) n w) = Next"
    and "effects (snd (no_battery_block cfg (\<lambda>_. s) n w)) = effects w"
  using assms
  by (auto simp add: no_battery_block_def no_battery_def py_and_def py_not_def ask_def Let_def entry_condition_def)

subsection \<open>Conditions have no effect\<close>

lemma effects_ask [simp]: "effects (snd (ask tel f w)) = effects w"
  by (simp add: ask_def)

lemma effects_py_not [simp]: "effects (snd (py_not p w)) = effects (snd (p w))"
  by (simp add: py_not_def split_beta)

lemma effects_py_and:
  assumes "\<And>v. effects (snd (p v)) = effects v" and "\<And>v. effects (snd (q v)) = effects v"
  shows "effects (snd (py_and p q w)) = effects w"
  using assms by (simp add: py_and_def split_beta)

lemma effects_conditions [simp]:
  "effects (snd (on_battery tel w)) = effects w"
  "effects (snd (discharging_level cfg tel w)) = effects w"
  "effects (snd (low_level cfg tel w)) = effects w"
  "effects (snd (critical_level cfg tel w)) = effects w"
  "effects (snd (hibernate_level cfg tel w)) = effects w"
  "effects (snd (ac_connected tel w)) = effects w"
  "effects (snd (full_charged tel w)) = effects w"
  "effects (snd (charging tel w)) = effects w"
  "effects (snd (no_battery tel w)) = effects w"
  by (simp_all add: on_battery_def discharging_level_def low_level_def critical_level_def
        hibernate_level_def ac_connected_def full_charged_def charging_def no_battery_def
        effects_py_and)

lemma effects_notify_values [simp]:
  "effects (notify_values tel mk w) =
     effects w @ [Notify (mk (battery_current_capacity (tel (calls w))) (battery_time (tel (Suc (calls w)))))]"
  by (simp add: notify_values_def ask_def)

subsection \<open>The minimal level on every call\<close>

lemma hibernate_level_holds:
  assumes "minimal_everywhere cfg tel"
  shows "hibernate_level cfg tel w = (True, w\<lparr>calls := calls w + 2\<rparr>)"
  using assms
  by (simp add: minimal_everywhere_def hibernate_level_def py_and_def py_not_def ask_def)

lemma test_rounds_holds:
  assumes "minimal_everywhere cfg tel"
  shows "test_rounds cfg tel k w =
           w\<lparr>calls := calls w + 2 * k,
             effects := effects w @ concat (replicate k ((if play_sound cfg then [Play_sound] else []) @ [Sleep 2]))\<rparr>"
proof (induction k arbitrary: w)
  case 0
  show ?case by simp
next
  case (Suc k)
  show ?case
    by (simp add: hibernate_level_holds [OF assms] Suc.IH effect_def)
qed

lemma first_warning_holds:
  assumes "minimal_everywhere cfg tel"
  shows "first_warning cfg tel k w =
           w\<lparr>calls := calls w + 2 * k,
             effects := effects w @ concat (replicate k [Sleep 2, Play_sound])\<rparr>"
proof (induction k arbitrary: w)
  case 0
  show ?case by simp
next
  case (Suc k)
  show ?case
    by (simp add: hibernate_level_holds [OF assms] Suc.IH effect_def)
qed

lemma final_beeps_eq:
  "final_beeps k w = w\<lparr>effects := effects w @ concat (replicate k [Sleep 5, Play_sound])\<rparr>"
  by (induction k arbitrary: w) (simp_all add: effect_def)

lemma last_chance_holds:
  assumes "minimal_everywhere cfg tel"
  shows "last_chance cfg tel w =
           w\<lparr>calls := calls w + 4,
             effects := effects w @
               [Sleep 2, Play_sound,
                Notify (Last_chance (battery_current_capacity (tel (calls w + 2)))
                                    (battery_time (tel (calls w + 3))) 10000),
                Sleep 10]\<rparr>"
  by (simp add: last_chance_def hibernate_level_holds [OF assms] effect_def ask_def eval_nat_numeral)

lemma lock_and_hibernate_holds:
  assumes "minimal_everywhere cfg tel"
  shows "lock_and_hibernate cfg tel w =
           (Next, w\<lparr>calls := calls w + 2,
                    effects := effects w @ concat (replicate 4 [Sleep 5, Play_sound])
                                 @ [Sleep 1, Lock_screen, Power_action]\<rparr>)"
  by (simp add: lock_and_hibernate_def hibernate_level_holds [OF assms] final_beeps_eq effect_def)

lemma minimal_escalation_real:
  assumes "\<not> test cfg" and "minimal_everywhere cfg tel"
  shows "minimal_escalation cfg tel w =
           (Next, w\<lparr>calls := calls w + 20,
                    effects := effects w @ concat (replicate 5 [Sleep 2, Play_sound])
                      @ [Sleep 2, Play_sound,
                         Notify (Last_chance (battery_current_capacity (tel (calls w + 16)))
                                             (battery_time (tel (calls w + 17))) 10000),
                         Sleep 10]
                      @ concat (replicate 4 [Sleep 5, Play_sound])
                      @ [Sleep 1, Lock_screen, Power_action]\<rparr>)"
  using assms(1)
  by (simp add: minimal_escalation_def hibernate_level_holds [OF assms(2)]
        first_warning_holds [OF assms(2)] last_chance_holds [OF assms(2)]
        lock_and_hibernate_holds [OF assms(2)] add.commute)

lemma minimal_escalation_test:
  assumes "test cfg" and "minimal_everywhere cfg tel"
  shows "fst (minimal_escalation cfg tel w) = Next"
    and "effects (snd (minimal_escalation cfg tel w)) =
           effects w @ concat (replicate 5 ((if play_sound cfg then [Play_sound] else []) @ [Sleep 2]))
             @ [Print_test, Sleep 10]"
  using assms(1)
  by (simp_all add: minimal_escalation_def hibernate_level_holds [OF assms(2)]
        test_rounds_holds [OF assms(2)] effect_def)

subsection \<open>The screen lock and the power command in a dry run\<close>

lemma power_commands_append [simp]:
  "power_commands (xs @ ys) = power_commands xs @ power_commands ys"
  by (simp add: power_commands_def)

lemma power_commands_simps [simp]:
  "power_commands [] = []"
  "power_commands (Sleep d # es) = power_commands es"
  "power_commands (Notify nt # es) = power_commands es"
  "power_commands (Play_sound # es) = power_commands es"
  "power_commands (Print_test # es) = power_commands es"
  "power_commands (Lock_screen # es) = Lock_screen # power_commands es"
  "power_commands (Power_action # es) = Power_action # power_commands es"
  by (simp_all add: power_commands_def)

lemma pc_check [simp]:
  "power_commands (effects (snd (check_battery_update_times cfg tel n w))) = power_commands (effects w)"
  by (induction n arbitrary: w) (simp_all add: split_beta Let_def)

lemma pc_hold_loop:
  assumes "\<And>v. effects (snd (cond v)) = effects v"
  shows "power_commands (effects (snd (hold_loop cond n w))) = power_commands (effects w)"
  by (induction n arbitrary: w) (simp_all add: split_beta Let_def assms)

lemma pc_ac_hold_loop:
  assumes "\<And>v. effects (snd (cond v)) = effects v"
  shows "power_commands (effects (snd (ac_hold_loop cfg tel cond n w))) = power_commands (effects w)"
  by (induction n arbitrary: w) (simp_all add: split_beta Let_def assms)

lemma pc_test_rounds [simp]:
  "power_commands (effects (test_rounds cfg tel k w)) = power_commands (effects w)"
  by (induction k arbitrary: w) (simp_all add: split_beta Let_def)

lemma pc_minimal_escalation:
  assumes "test cfg"
  shows "power_commands (effects (snd (minimal_escalation cfg tel w))) = power_commands (effects w)"
  using assms by (simp add: minimal_escalation_def split_beta Let_def)

lemma pc_and_then:
  assumes "\<And>v. power_commands (effects (snd (f v))) = power_commands (effects v)"
  shows "power_commands (effects (snd (and_then r f))) = power_commands (effects (snd r))"
  using assms by (cases r; cases "fst r") (auto simp add: and_then_def)

lemma pc_discharging_block:
  assumes "test cfg"
  shows "power_commands (effects (snd (discharging_block cfg tel n w))) = power_commands (effects w)"
  by (simp add: discharging_block_def split_beta Let_def pc_and_then pc_hold_loop
        pc_minimal_escalation [OF assms])

lemma pc_ac_block:
  "power_commands (effects (snd (ac_block cfg tel n w))) = power_commands (effects w)"
  by (simp add: ac_block_def split_beta Let_def pc_and_then pc_ac_hold_loop)

lemma pc_battery_loop:
  assumes "test cfg"
  shows "power_commands (effects (snd (battery_loop cfg tel n w))) = power_commands (effects w)"
proof (induction n arbitrary: w)
  case 0
  show ?case by simp
next
  case (Suc n)
  let ?r = "and_then (discharging_block cfg tel n (snd (ask tel is_battery_present w))) (ac_block cfg tel n)"
  have r: "power_commands (effects (snd ?r)) = power_commands (effects w)"
    by (simp add: pc_and_then pc_ac_block pc_discharging_block [OF assms])
  show ?case
    using r Suc.IH [of "snd ?r"]
    by (cases ?r; cases "fst ?r") (auto simp add: split_beta)
qed

lemma pc_no_battery_loop:
  "power_commands (effects (snd (no_battery_loop cfg tel n c w))) = power_commands (effects w)"
  by (induction n arbitrary: c w) (simp_all add: split_beta Let_def py_and_def py_not_def)

lemma pc_no_battery_block:
  "power_commands (effects (snd (no_battery_block cfg tel n w))) = power_commands (effects w)"
  by (simp add: no_battery_block_def split_beta pc_no_battery_loop)

lemma pc_run_main_loop:
  assumes "test cfg"
  shows "power_commands (effects (run_main_loop cfg tel n w)) = power_commands (effects w)"
proof (induction n arbitrary: w)
  case 0
  show ?case by simp
next
  case (Suc n)
  let ?r = "and_then (battery_loop cfg tel n w) (no_battery_block cfg tel n)"
  have r: "power_commands (effects (snd ?r)) = power_commands (effects w)"
    by (simp add: pc_and_then pc_no_battery_block pc_battery_loop [OF assms])
  show ?case
    using r Suc.IH [of "snd ?r"]
    by (cases ?r; cases "fst ?r") auto
qed

subsection \<open>The escalation once the AC adapter is back\<close>

lemma calls_hibernate_level: "calls w \<le> calls (snd (hibernate_level cfg tel w))"
  by (simp add: hibernate_level_def py_and_def py_not_def ask_def)

lemma defused_mono: "defused cfg tel p \<Longrightarrow> p \<le> q \<Longrightarrow> defused cfg tel q"
  by (auto simp add: defused_def)

lemma hibernate_level_defused:
  assumes "defused cfg tel (calls w)"
  shows "fst (hibernate_level cfg tel w) = False"
  using assms
  by (auto simp add: defused_def hibernate_level_def py_and_def py_not_def ask_def)

lemma first_warning_defused:
  assumes "defused cfg tel (calls w)"
  shows "effects (first_warning cfg tel k w) = effects w \<and> calls w \<le> calls (first_warning cfg tel k w)"
  using hibernate_level_defused [OF assms] calls_hibernate_level [of w cfg tel]
  by (cases k) (simp_all add: split_beta)

lemma last_chance_defused:
  assumes "defused cfg tel (calls w)"
  shows "effects (last_chance cfg tel w) = effects w \<and> calls w \<le> calls (last_chance cfg tel w)"
  using hibernate_level_defused [OF assms] calls_hibernate_level [of w cfg tel]
  by (simp add: last_chance_def split_beta)

lemma lock_and_hibernate_defused:
  assumes "defused cfg tel (calls w)"
  shows "fst (lock_and_hibernate cfg tel w) = Break \<and> effects (snd (lock_and_hibernate cfg tel w)) = effects w"
  using hibernate_level_defused [OF assms]
  by (simp add: lock_and_hibernate_def split_beta)

lemma lock_and_hibernate_commands:
  "power_commands (effects (snd (lock_and_hibernate cfg tel w))) =
     power_commands (effects w) @ (if fst (hibernate_level cfg tel w) then [Lock_screen, Power_action] else [])"
  by (simp add: lock_and_hibernate_def split_beta final_beeps_eq eval_nat_numeral)

subsection \<open>A state that holds on every call\<close>

lemma notifications_append [simp]:
  "notifications (xs @ ys) = notifications xs @ notifications ys"
  by (induction xs rule: notifications.induct) simp_all

lemma notifications_sleeps [simp]: "notifications (replicate n (Sleep d)) = []"
  by (induction n) simp_all

lemma notifications_check [simp]:
  "notifications (effects (snd (check_battery_update_times cfg tel n w))) = notifications (effects w)"
  by (induction n arbitrary: w) (simp_all add: split_beta Let_def)

lemma hold_loop_holds:
  assumes "\<And>v. fst (cond v)" and "\<And>v. effects (snd (cond v)) = effects v"
  shows "fst (hold_loop cond n w) = Fuel_out
       \<and> effects (snd (hold_loop cond n w)) = effects w @ replicate n (Sleep 1)"
proof (induction n arbitrary: w)
  case 0
  show ?case by simp
next
  case (Suc n)
  show ?case
    using Suc.IH [of "effect (Sleep 1) (snd (cond w))"] assms(1) [of w] assms(2) [of w]
    by (simp add: split_beta replicate_append_same)
qed

lemma ac_hold_loop_holds:
  assumes "\<And>v. fst (cond v)" and "\<And>v. effects (snd (cond v)) = effects v"
    and "\<And>i. is_battery_present (tel i)"
  shows "fst (ac_hold_loop cfg tel cond n w) = Fuel_out
       \<and> effects (snd (ac_hold_loop cfg tel cond n w)) = effects w @ replicate n (Sleep 1)"
proof (induction n arbitrary: w)
  case 0
  show ?case by simp
next
  case (Suc n)
  show ?case
    using Suc.IH [of "effect (Sleep 1) (snd (ask tel is_battery_present (snd (cond w))))"]
      assms(1) [of w] assms(2) [of w] assms(3)
    by (simp add: split_beta replicate_append_same ask_def)
qed

lemma check_flow: "fst (check_battery_update_times cfg tel n w) \<noteq> Break"
  by (induction n arbitrary: w) (simp_all add: split_beta Let_def)

lemma wait_then:
  "and_then (check_battery_update_times cfg tel n w) f =
     (if fst (check_battery_update_times cfg tel n w) = Next
      then f (snd (check_battery_update_times cfg tel n w))
      else (Fuel_out, snd (check_battery_update_times cfg tel n w)))"
  using check_flow [of cfg tel n w]
  by (cases "check_battery_update_times cfg tel n w"; cases "fst (check_battery_update_times cfg tel n w)")
     (auto)

lemma stanza_hold:
  assumes "\<And>v. fst (cond v)" and "\<And>v. effects (snd (cond v)) = effects v"
  shows "fst (and_then (check_battery_update_times cfg tel n w)
                (\<lambda>w3. hold_loop cond n (notify_values tel mk w3))) = Fuel_out"
    and "effects (snd (and_then (check_battery_update_times cfg tel n w)
                (\<lambda>w3. hold_loop cond n (notify_values tel mk w3)))) =
         effects (snd (check_battery_update_times cfg tel n w)) @
           (if fst (check_battery_update_times cfg tel n w) = Next
            then [Notify (mk (battery_current_capacity (tel (calls (snd (check_battery_update_times cfg tel n w)))))
                             (battery_time (tel (Suc (calls (snd (check_battery_update_times cfg tel n w)))))))]
                 @ replicate n (Sleep 1)
            else [])"
  using check_flow [of cfg tel n w]
  by (cases "fst (check_battery_update_times cfg tel n w)";
      simp add: wait_then hold_loop_holds [OF assms])+

lemma stanza_ac_hold:
  assumes "\<And>v. fst (cond v)" and "\<And>v. effects (snd (cond v)) = effects v"
    and "\<And>i. is_battery_present (tel i)"
  shows "fst (and_then (check_battery_update_times cfg tel n w)
                (\<lambda>w3. ac_hold_loop cfg tel cond n (notify_values tel mk w3))) = Fuel_out"
    and "effects (snd (and_then (check_battery_update_times cfg tel n w)
                (\<lambda>w3. ac_hold_loop cfg tel cond n (notify_values tel mk w3)))) =
         effects (snd (check_battery_update_times cfg tel n w)) @
           (if fst (check_battery_update_times cfg tel n w) = Next
            then [Notify (mk (battery_current_capacity (tel (calls (snd (check_battery_update_times cfg tel n w)))))
                             (battery_time (tel (Suc (calls (snd (check_battery_update_times cfg tel n w)))))))]
                 @ replicate n (Sleep 1)
            else [])"
  using check_flow [of cfg tel n w]
  by (cases "fst (check_battery_update_times cfg tel n w)";
      simp add: wait_then ac_hold_loop_holds [OF assms])+

lemma run_main_loop_cut:
  assumes "fst (battery_loop cfg tel n w) = Fuel_out"
  shows "run_main_loop cfg tel (Suc n) w = snd (battery_loop cfg tel n w)"
  using assms by (cases "battery_loop cfg tel n w") simp

lemmas cond_defs = on_battery_def discharging_level_def low_level_def critical_level_def
  hibernate_level_def ac_connected_def full_charged_def charging_def no_battery_def
  py_and_def py_not_def ask_def

lemma point:
  assumes "valid_thresholds cfg" and "holds_throughout cfg tel st"
  shows "st = Discharging \<Longrightarrow> is_battery_present (tel i) \<and> \<not> is_ac_present (tel i)
           \<and> is_battery_discharging (tel i) \<and> battery_current_capacity (tel i) > battery_low_value cfg"
    and "st = Low \<Longrightarrow> is_battery_present (tel i) \<and> \<not> is_ac_present (tel i)
           \<and> is_battery_discharging (tel i) \<and> \<not> battery_current_capacity (tel i) > battery_low_value cfg
           \<and> battery_current_capacity (tel i) \<le> battery_low_value cfg
           \<and> battery_current_capacity (tel i) > battery_critical_value cfg"
    and "st = Critical \<Longrightarrow> is_battery_present (tel i) \<and> \<not> is_ac_present (tel i)
           \<and> is_battery_discharging (tel i) \<and> \<not> battery_current_capacity (tel i) > battery_low_value cfg
           \<and> \<not> battery_current_capacity (tel i) > battery_critical_value cfg
           \<and> battery_current_capacity (tel i) \<le> battery_critical_value cfg
           \<and> battery_current_capacity (tel i) > battery_minimal_value cfg"
    and "st = Charging \<Longrightarrow> is_battery_present (tel i) \<and> is_ac_present (tel i)
           \<and> \<not> is_battery_discharging (tel i) \<and> \<not> is_battery_fully_charged (tel i)"
    and "st = Full \<Longrightarrow> is_battery_present (tel i) \<and> is_ac_present (tel i)
           \<and> \<not> is_battery_discharging (tel i) \<and> is_battery_fully_charged (tel i)"
  using assms(1) assms(2) [unfolded holds_throughout_def, rule_format, of i]
  by (auto simp add: entry_condition_def valid_thresholds_def)

lemma discharging_conds:
  assumes "valid_thresholds cfg" and "holds_throughout cfg tel Discharging"
  shows "fst (ask tel is_battery_present v)"
    and "on_battery tel v = (True, v\<lparr>calls := Suc (Suc (calls v))\<rparr>)"
    and "discharging_level cfg tel v = (True, v\<lparr>calls := Suc (Suc (calls v))\<rparr>)"
  by (simp_all add: cond_defs point(1) [OF assms refl])

lemma low_conds:
  assumes "valid_thresholds cfg" and "holds_throughout cfg tel Low"
  shows "fst (ask tel is_battery_present v)"
    and "on_battery tel v = (True, v\<lparr>calls := Suc (Suc (calls v))\<rparr>)"
    and "discharging_level cfg tel v = (False, v\<lparr>calls := Suc (calls v)\<rparr>)"
    and "low_level cfg tel v = (True, v\<lparr>calls := Suc (Suc (calls v))\<rparr>)"
  by (simp_all add: cond_defs point(2) [OF assms refl])

lemma critical_conds:
  assumes "valid_thresholds cfg" and "holds_throughout cfg tel Critical"
  shows "fst (ask tel is_battery_present v)"
    and "on_battery tel v = (True, v\<lparr>calls := Suc (Suc (calls v))\<rparr>)"
    and "discharging_level cfg tel v = (False, v\<lparr>calls := Suc (calls v)\<rparr>)"
    and "low_level cfg tel v = (False, v\<lparr>calls := Suc (calls v)\<rparr>)"
    and "critical_level cfg tel v = (True, v\<lparr>calls := Suc (Suc (calls v))\<rparr>)"
  by (simp_all add: cond_defs point(3) [OF assms refl])

lemma charging_conds:
  assumes "valid_thresholds cfg" and "holds_throughout cfg tel Charging"
  shows "fst (ask tel is_battery_present v)"
    and "on_battery tel v = (False, v\<lparr>calls := Suc (calls v)\<rparr>)"
    and "ac_connected tel v = (True, v\<lparr>calls := Suc (Suc (calls v))\<rparr>)"
    and "full_charged tel v = (False, v\<lparr>calls := Suc (Suc (calls v))\<rparr>)"
    and "charging tel v = (True, v\<lparr>calls := Suc (Suc (Suc (calls v)))\<rparr>)"
    and "is_battery_present (tel i)"
  by (simp_all add: cond_defs point(4) [OF assms refl])

lemma full_conds:
  assumes "valid_thresholds cfg" and "holds_throughout cfg tel Full"
  shows "fst (ask tel is_battery_present v)"
    and "on_battery tel v = (False, v\<lparr>calls := Suc (calls v)\<rparr>)"
    and "ac_connected tel v = (True, v\<lparr>calls := Suc (Suc (calls v))\<rparr>)"
    and "full_charged tel v = (True, v\<lparr>calls := Suc (Suc (Suc (calls v)))\<rparr>)"
    and "is_battery_present (tel i)"
  by (simp_all add: cond_defs point(5) [OF assms refl])

lemma and_then_out: "fst r = Fuel_out \<Longrightarrow> and_then r f = r"
  by (cases r) simp

lemma battery_loop_out:
  assumes "fst (ask tel is_battery_present w)"
    and "fst (and_then (discharging_block cfg tel n (snd (ask tel is_battery_present w)))
                (ac_block cfg tel n)) = Fuel_out"
  shows "battery_loop cfg tel (Suc n) w =
           and_then (discharging_block cfg tel n (snd (ask tel is_battery_present w)))
             (ac_block cfg tel n)"
  using assms
  by (cases "and_then (discharging_block cfg tel n (snd (ask tel is_battery_present w)))
               (ac_block cfg tel n)")
     (simp add: split_beta)

lemma discharging_entry:
  assumes "valid_thresholds cfg" and "holds_throughout cfg tel Discharging"
  shows "fst (battery_loop cfg tel (Suc n) w) = Fuel_out
       \<and> effects (snd (battery_loop cfg tel (Suc n) w)) = entry_trace cfg tel n Discharging w"
proof -
  note c = discharging_conds [OF assms]
  have p: "\<And>v. fst (discharging_level cfg tel v)"
       "\<And>v. effects (snd (discharging_level cfg tel v)) = effects v"
    by (simp_all add: c)
  let ?w2 = "at_wait Discharging w"
  let ?st = "and_then (check_battery_update_times cfg tel n ?w2)
            (\<lambda>w3. hold_loop (discharging_level cfg tel) n (notify_values tel Battery_discharging w3))"
  have d: "discharging_block cfg tel n (snd (ask tel is_battery_present w)) = ?st"
    by (simp add: discharging_block_def c at_wait_def eval_nat_numeral) (simp add: ask_def)
  note h = stanza_hold [OF p, of cfg tel n ?w2 Battery_discharging]
  have b: "battery_loop cfg tel (Suc n) w = ?st"
    using battery_loop_out [OF c(1), of cfg n w] h(1) by (simp add: d and_then_out)
  show ?thesis
    using h by (simp add: b entry_trace_def Let_def del: battery_loop.simps)
qed

lemma low_entry:
  assumes "valid_thresholds cfg" and "holds_throughout cfg tel Low"
  shows "fst (battery_loop cfg tel (Suc n) w) = Fuel_out
       \<and> effects (snd (battery_loop cfg tel (Suc n) w)) = entry_trace cfg tel n Low w"
proof -
  note c = low_conds [OF assms]
  have p: "\<And>v. fst (low_level cfg tel v)"
       "\<And>v. effects (snd (low_level cfg tel v)) = effects v"
    by (simp_all add: c)
  let ?w2 = "at_wait Low w"
  let ?st = "and_then (check_battery_update_times cfg tel n ?w2)
            (\<lambda>w3. hold_loop (low_level cfg tel) n (notify_values tel Low_capacity_level w3))"
  have d: "discharging_block cfg tel n (snd (ask tel is_battery_present w)) = ?st"
    by (simp add: discharging_block_def c at_wait_def eval_nat_numeral) (simp add: ask_def)
  note h = stanza_hold [OF p, of cfg tel n ?w2 Low_capacity_level]
  have b: "battery_loop cfg tel (Suc n) w = ?st"
    using battery_loop_out [OF c(1), of cfg n w] h(1) by (simp add: d and_then_out)
  show ?thesis
    using h by (simp add: b entry_trace_def Let_def del: battery_loop.simps)
qed

lemma critical_entry:
  assumes "valid_thresholds cfg" and "holds_throughout cfg tel Critical"
  shows "fst (battery_loop cfg tel (Suc n) w) = Fuel_out
       \<and> effects (snd (battery_loop cfg tel (Suc n) w)) = entry_trace cfg tel n Critical w"
proof -
  note c = critical_conds [OF assms]
  have p: "\<And>v. fst (critical_level cfg tel v)"
       "\<And>v. effects (snd (critical_level cfg tel v)) = effects v"
    by (simp_all add: c)
  let ?w2 = "at_wait Critical w"
  let ?st = "and_then (check_battery_update_times cfg tel n ?w2)
            (\<lambda>w3. hold_loop (critical_level cfg tel) n (notify_values tel Critical_battery_level w3))"
  have d: "discharging_block cfg tel n (snd (ask tel is_battery_present w)) = ?st"
    by (simp add: discharging_block_def c at_wait_def eval_nat_numeral) (simp add: ask_def)
  note h = stanza_hold [OF p, of cfg tel n ?w2 Critical_battery_level]
  have b: "battery_loop cfg tel (Suc n) w = ?st"
    using battery_loop_out [OF c(1), of cfg n w] h(1) by (simp add: d and_then_out)
  show ?thesis
    using h by (simp add: b entry_trace_def Let_def del: battery_loop.simps)
qed

lemma charging_entry:
  assumes "valid_thresholds cfg" and "holds_throughout cfg tel Charging"
  shows "fst (battery_loop cfg tel (Suc n) w) = Fuel_out
       \<and> effects (snd (battery_loop cfg tel (Suc n) w)) = entry_trace cfg tel n Charging w"
proof -
  note c = charging_conds [OF assms]
  have p: "\<And>v. fst (charging tel v)"
       "\<And>v. effects (snd (charging tel v)) = effects v"
    by (simp_all add: c)
  let ?w2 = "at_wait Charging w"
  let ?st = "and_then (check_battery_update_times cfg tel n ?w2)
            (\<lambda>w3. ac_hold_loop cfg tel (charging tel) n (notify_values tel Battery_charging w3))"
  have d: "and_then (discharging_block cfg tel n (snd (ask tel is_battery_present w)))
             (ac_block cfg tel n) = ?st"
    by (simp add: discharging_block_def ac_block_def c(1-5) at_wait_def eval_nat_numeral)
       (simp add: ask_def)
  note h = stanza_ac_hold [OF p c(6), where cfg = cfg and n = n and w = ?w2 and mk = Battery_charging]
  have b: "battery_loop cfg tel (Suc n) w = ?st"
    using battery_loop_out [OF c(1), of cfg n w] h(1) by (simp add: d)
  show ?thesis
    using h by (simp add: b entry_trace_def Let_def del: battery_loop.simps)
qed

lemma full_entry:
  assumes "valid_thresholds cfg" and "holds_throughout cfg tel Full"
  shows "fst (battery_loop cfg tel (Suc n) w) = Fuel_out
       \<and> effects (snd (battery_loop cfg tel (Suc n) w)) =
           effects w @ [Sleep (battery_update_timeout cfg), Notify Full_battery] @ replicate n (Sleep 1)"
proof -
  note c = full_conds [OF assms]
  have p: "\<And>v. fst (full_charged tel v)"
       "\<And>v. effects (snd (full_charged tel v)) = effects v"
       "\<And>i. is_battery_present (tel i)"
    by (simp_all add: c)
  let ?w2 = "effect (Notify Full_battery) (effect (Sleep (battery_update_timeout cfg))
               (w\<lparr>calls := calls w + 7\<rparr>))"
  let ?st = "ac_hold_loop cfg tel (full_charged tel) n ?w2"
  have h: "fst ?st = Fuel_out"
    "effects (snd ?st) = effects w @ [Sleep (battery_update_timeout cfg), Notify Full_battery] @ replicate n (Sleep 1)"
    using ac_hold_loop_holds [OF p, where cfg = cfg and n = n and w = ?w2] by simp_all
  have "\<exists>f. and_then (discharging_block cfg tel n (snd (ask tel is_battery_present w)))
             (ac_block cfg tel n) = and_then ?st f"
    by (simp add: discharging_block_def ac_block_def c(1-4) eval_nat_numeral)
       (auto simp add: ask_def effect_def)
  then have d: "and_then (discharging_block cfg tel n (snd (ask tel is_battery_present w)))
             (ac_block cfg tel n) = ?st"
    using h(1) by (auto simp add: and_then_out)
  have b: "battery_loop cfg tel (Suc n) w = ?st"
    using battery_loop_out [OF c(1), of cfg n w] h(1) by (simp add: d)
  show ?thesis
    using h by (simp add: b del: battery_loop.simps)
qed

lemma entry_run:
  assumes "valid_thresholds cfg" and "holds_throughout cfg tel st"
  shows "st \<in> {Discharging, Low, Critical, Charging} \<Longrightarrow>
           effects (run_main_loop cfg tel (Suc (Suc n)) w) = entry_trace cfg tel n st w"
    and "st = Full \<Longrightarrow>
           effects (run_main_loop cfg tel (Suc (Suc n)) w) =
             effects w @ [Sleep (battery_update_timeout cfg), Notify Full_battery] @ replicate n (Sleep 1)"
  using assms discharging_entry [of cfg tel n w] low_entry [of cfg tel n w]
    critical_entry [of cfg tel n w] charging_entry [of cfg tel n w] full_entry [of cfg tel n w]
  by (auto simp add: run_main_loop_cut simp del: battery_loop.simps run_main_loop.simps)

lemma check_alternating:
  assumes "odd (calls w)"
  shows "fst (check_battery_update_times default_config alternating n w) = Fuel_out"
  using assms
  by (induction n arbitrary: w)
     (simp_all add: split_beta Let_def ask_def alternating_def reading_def default_config_def)

lemma check_unknown:
  assumes "\<And>i. battery_time (tel i) = ''Unknown''"
  shows "fst (check_battery_update_times cfg tel (Suc n) w) = Next"
    and "effects (snd (check_battery_update_times cfg tel (Suc n) w)) =
           effects w @ [Sleep (battery_update_timeout cfg)]"
  using assms by (simp_all add: split_beta Let_def ask_def)

section \<open>The claims\<close>

subsection \<open>Classification\<close>



subsection \<open>A tick that enters no branch\<close>

text \<open>
  Claim C9. When the sample of a tick satisfies none of the seven branch conditions (the
  state is ACIdle) and every call of the loop reads that sample, the loop has no effect
  at all, however long it runs: no notification, no command, not even a sleep. It only
  calls the telemetry again.
\<close>

theorem idle_tick_no_effect:
  assumes "entry_condition cfg s ACIdle"
  shows "effects (run_main_loop cfg (\<lambda>_. s) n w) = effects w"
proof (induction n arbitrary: w)
  case 0
  show ?case by simp
next
  case (Suc n)
  obtain fl w1 where b: "battery_loop cfg (\<lambda>_. s) n w = (fl, w1)"
    by (cases "battery_loop cfg (\<lambda>_. s) n w")
  have e1: "effects w1 = effects w"
    using idle_battery_loop [OF assms, of n w] b by simp
  obtain w2 where nb: "no_battery_block cfg (\<lambda>_. s) n w1 = (Next, w2)"
    and e2: "effects w2 = effects w"
    using idle_no_battery_block [OF assms, of n w1] e1
    by (cases "no_battery_block cfg (\<lambda>_. s) n w1") simp
  show ?case
    using b nb e1 e2 Suc.IH [of w2] Suc.IH [of w1]
    by (cases fl) simp_all
qed

theorem idle_tick_no_effect_witness:
  "entry_condition default_config (reading True True True False 50 ''1:00'') ACIdle
   \<and> effects (run_main_loop default_config (\<lambda>_. reading True True True False 50 ''1:00'') 5 start)
       = []"
proof -
  have h: "entry_condition default_config (reading True True True False 50 ''1:00'') ACIdle"
    by (simp add: entry_condition_def reading_def)
  show ?thesis
    using h idle_tick_no_effect [OF h, of 5 start] by (simp add: start_def)
qed

subsection \<open>The stabilisation wait returns\<close>

text \<open>
  Claim C10. A call of the stabilisation wait returns after at most one sleep of
  \<open>battery_update_timeout\<close> seconds unless the time alternates within its first round,
  that is, reads unknown at the loop head, known after the sleep and unknown again at
  the next loop head. It sleeps exactly once when the first reading is unknown (so also
  when every reading is unknown) and not at all when the first reading is known. Two
  rounds of budget suffice. \<open>dbg\<close> counts the extra reading of a debug message.
\<close>

theorem check_battery_update_times_returns:
  assumes "dbg = (if debug cfg then 1 else 0)"
    and "\<not> (battery_time (tel (calls w)) = ''Unknown''
          \<and> battery_time (tel (calls w + dbg + 1)) \<noteq> ''Unknown''
          \<and> battery_time (tel (calls w + dbg + 2)) = ''Unknown'')"
  shows "fst (check_battery_update_times cfg tel (Suc (Suc n)) w) = Next
       \<and> effects (snd (check_battery_update_times cfg tel (Suc (Suc n)) w)) =
           effects w @ (if battery_time (tel (calls w)) = ''Unknown''
                        then [Sleep (battery_update_timeout cfg)] else [])"
  using assms
  by (auto simp add: Let_def split_beta ask_def effect_def)

theorem check_battery_update_times_returns_witness:
  "(0::nat) = (if debug default_config then 1 else 0)
   \<and> \<not> (battery_time (reading True False True False 50 ''Unknown'') = ''Unknown''
        \<and> battery_time (reading True False True False 50 ''Unknown'') \<noteq> ''Unknown''
        \<and> battery_time (reading True False True False 50 ''Unknown'') = ''Unknown'')
   \<and> fst (check_battery_update_times default_config
             (\<lambda>_. reading True False True False 50 ''Unknown'') 2 start) = Next
   \<and> effects (snd (check_battery_update_times default_config
             (\<lambda>_. reading True False True False 50 ''Unknown'') 2 start)) = [Sleep 6]"
  using check_battery_update_times_returns
    [of 0 default_config "\<lambda>_. reading True False True False 50 ''Unknown''" start 0]
  by (simp add: default_config_def reading_def start_def numeral_2_eq_2)

subsection \<open>The escalation at the minimal level\<close>

text \<open>
  Claim C3. The claim, that an AC adapter (or a capacity above the minimal threshold)
  seen at any checkpoint of the escalation keeps the screen lock and the power command
  from running, holds when the adapter stays: if from a checkpoint on every call sees
  the AC adapter, or from it on every call reads a capacity above the threshold, then
  the rest of the escalation has no effect and ends with the \<^verbatim>\<open>break\<close> of line 533. The
  checkpoint may be a round of the first warning with \<open>k\<close> rounds to go (with \<open>k = 0\<close> the
  check of line 502), the last check of line 522, or the check of line 484 that opens
  the escalation. In general the last check alone decides: the two commands run exactly
  when it finds the minimal level, whatever the earlier checks have seen.
\<close>

theorem escalation_aborts:
  assumes "defused cfg tel (calls w)"
  shows "fst (lock_and_hibernate cfg tel (last_chance cfg tel (first_warning cfg tel k w))) = Break
       \<and> effects (snd (lock_and_hibernate cfg tel (last_chance cfg tel (first_warning cfg tel k w)))) = effects w
       \<and> fst (lock_and_hibernate cfg tel w) = Break
       \<and> effects (snd (lock_and_hibernate cfg tel w)) = effects w
       \<and> effects (snd (minimal_escalation cfg tel w)) = effects w
       \<and> power_commands (effects (snd (lock_and_hibernate cfg tel v))) =
           power_commands (effects v)
             @ (if fst (hibernate_level cfg tel v) then [Lock_screen, Power_action] else [])"
proof -
  let ?a = "first_warning cfg tel k w"
  let ?b = "last_chance cfg tel ?a"
  have a: "defused cfg tel (calls ?a)" "effects ?a = effects w"
    using first_warning_defused [OF assms, of k] defused_mono [OF assms] by simp_all
  have b: "defused cfg tel (calls ?b)" "effects ?b = effects w"
    using last_chance_defused [OF a(1)] defused_mono [OF a(1)] a(2) by simp_all
  have m: "effects (snd (minimal_escalation cfg tel w)) = effects w"
    using hibernate_level_defused [OF assms]
    by (simp add: minimal_escalation_def split_beta)
  show ?thesis
    using lock_and_hibernate_defused [OF b(1)] lock_and_hibernate_defused [OF assms] b(2) m
    by (simp add: lock_and_hibernate_commands)
qed

theorem escalation_aborts_witness:
  "defused default_config ac_back (calls start)
   \<and> fst (lock_and_hibernate default_config ac_back
            (last_chance default_config ac_back (first_warning default_config ac_back 5 start))) = Break
   \<and> effects (snd (lock_and_hibernate default_config ac_back
            (last_chance default_config ac_back (first_warning default_config ac_back 5 start)))) = []
   \<and> fst (lock_and_hibernate default_config ac_back start) = Break
   \<and> effects (snd (lock_and_hibernate default_config ac_back start)) = []
   \<and> effects (snd (minimal_escalation default_config ac_back start)) = []"
proof -
  have h: "defused default_config ac_back (calls start)"
    by (simp add: defused_def ac_back_def reading_def)
  show ?thesis
    using h escalation_aborts [OF h, of 5 start] by (simp add: start_def)
qed

text \<open>
  The claim as worded fails when the adapter is seen at one checkpoint only. With
  \<open>ac_flicker\<close> the first round of the first warning reads the AC adapter as present
  (call 16) and leaves the \<^verbatim>\<open>for\<close> loop without a sound; the checks of lines 502 and 522
  then find the minimal level again, and the run ends with the screen lock and the power
  command.
\<close>

theorem escalation_resumes_after_flicker:
  "is_ac_present (ac_flicker 16)
   \<and> first_warning default_config ac_flicker 5 \<lparr>calls = 15, effects = []\<rparr>
       = \<lparr>calls = 17, effects = []\<rparr>
   \<and> effects (run_main_loop default_config ac_flicker 3 start) =
       [Notify (Minimal_battery_level 5 ''0:10'' 10000), Sleep 2, Play_sound,
        Notify (Last_chance 5 ''0:10'' 10000), Sleep 10, Sleep 5, Play_sound,
        Sleep 5, Play_sound, Sleep 5, Play_sound, Sleep 5, Play_sound,
        Sleep 1, Lock_screen, Power_action]
   \<and> power_commands (effects (run_main_loop default_config ac_flicker 3 start)) =
       [Lock_screen, Power_action]"
  by code_simp

text \<open>
  Claim C4. Without the dry run, when every check finds the minimal level, the
  escalation is: five rounds of two seconds of sleep and the sound (the first warning);
  then two seconds of sleep, the sound, the last notification with a display time of
  10000 milliseconds and ten seconds of sleep (line 502 to 520); then four rounds of
  five seconds of sleep and the sound, one second of sleep, the screen lock and the
  power command, each once (line 522 to 531). The second phase starts with a sleep of
  two seconds (line 505) that the claim leaves out.
\<close>

theorem real_escalation:
  assumes "\<not> test cfg" and "minimal_everywhere cfg tel"
  shows "effects (last_chance cfg tel w) =
           effects w @ [Sleep 2, Play_sound,
                        Notify (Last_chance (battery_current_capacity (tel (calls w + 2)))
                                            (battery_time (tel (calls w + 3))) 10000),
                        Sleep 10]
       \<and> fst (lock_and_hibernate cfg tel w) = Next
       \<and> effects (snd (lock_and_hibernate cfg tel w)) =
           effects w @ concat (replicate 4 [Sleep 5, Play_sound])
             @ [Sleep 1, Lock_screen, Power_action]
       \<and> fst (minimal_escalation cfg tel w) = Next
       \<and> effects (snd (minimal_escalation cfg tel w)) =
           effects w @ concat (replicate 5 [Sleep 2, Play_sound])
             @ [Sleep 2, Play_sound,
                Notify (Last_chance (battery_current_capacity (tel (calls w + 16)))
                                    (battery_time (tel (calls w + 17))) 10000),
                Sleep 10]
             @ concat (replicate 4 [Sleep 5, Play_sound])
             @ [Sleep 1, Lock_screen, Power_action]
       \<and> power_commands (effects (snd (minimal_escalation cfg tel w))) =
           power_commands (effects w) @ [Lock_screen, Power_action]"
  by (simp add: minimal_escalation_real [OF assms] last_chance_holds [OF assms(2)]
        lock_and_hibernate_holds [OF assms(2)] eval_nat_numeral)

theorem real_escalation_witness:
  "\<not> test default_config \<and> minimal_everywhere default_config minimal_steady
   \<and> effects (last_chance default_config minimal_steady start) =
       [Sleep 2, Play_sound, Notify (Last_chance 5 ''0:10'' 10000), Sleep 10]
   \<and> effects (snd (lock_and_hibernate default_config minimal_steady start)) =
       [Sleep 5, Play_sound, Sleep 5, Play_sound, Sleep 5, Play_sound, Sleep 5, Play_sound,
        Sleep 1, Lock_screen, Power_action]
   \<and> power_commands (effects (snd (minimal_escalation default_config minimal_steady start))) =
       [Lock_screen, Power_action]"
proof -
  have h: "\<not> test default_config" "minimal_everywhere default_config minimal_steady"
    by (simp_all add: default_config_def minimal_everywhere_def minimal_steady_def reading_def)
  show ?thesis
    using h real_escalation [OF h, of start]
    by (simp add: start_def minimal_steady_def reading_def eval_nat_numeral)
qed

text \<open>
  On the steady battery at 5 percent the second phase is not the sequence of the claim.
\<close>

theorem phase_b_sleeps_first:
  "minimal_everywhere default_config minimal_steady
   \<and> effects (last_chance default_config minimal_steady start) \<noteq> claimed_phase_b 5 ''0:10''
   \<and> effects (last_chance default_config minimal_steady start) = Sleep 2 # claimed_phase_b 5 ''0:10''"
proof -
  have h: "minimal_everywhere default_config minimal_steady"
    by (simp add: default_config_def minimal_everywhere_def minimal_steady_def reading_def)
  have e: "effects (last_chance default_config minimal_steady start) =
             [Sleep 2, Play_sound, Notify (Last_chance 5 ''0:10'' 10000), Sleep 10]"
    by code_simp
  show ?thesis
    using h by (simp add: e claimed_phase_b_def)
qed

text \<open>
  Claim C5. In a dry run, when every check finds the minimal level, the escalation is
  five rounds, each the sound (if sounds are enabled) and two seconds of sleep, then the
  message of the dry run and ten seconds of sleep. In a dry run the loop never runs the
  screen lock or the power command, whatever the telemetry and however long it runs.
\<close>

theorem dry_run_escalation:
  assumes "test cfg" and "minimal_everywhere cfg tel"
  shows "fst (minimal_escalation cfg tel w) = Next
       \<and> effects (snd (minimal_escalation cfg tel w)) =
           effects w @ concat (replicate 5 ((if play_sound cfg then [Play_sound] else []) @ [Sleep 2]))
             @ [Print_test, Sleep 10]
       \<and> power_commands (effects (run_main_loop cfg tel' n w')) = power_commands (effects w')"
  using minimal_escalation_test [OF assms] pc_run_main_loop [OF assms(1)] by simp

theorem dry_run_escalation_witness:
  "test test_config \<and> minimal_everywhere test_config minimal_steady
   \<and> fst (minimal_escalation test_config minimal_steady start) = Next
   \<and> effects (snd (minimal_escalation test_config minimal_steady start)) =
       [Play_sound, Sleep 2, Play_sound, Sleep 2, Play_sound, Sleep 2, Play_sound, Sleep 2,
        Play_sound, Sleep 2, Print_test, Sleep 10]
   \<and> power_commands (effects (run_main_loop test_config minimal_steady 4 start)) = []"
proof -
  have h: "test test_config" "minimal_everywhere test_config minimal_steady"
    by (simp_all add: test_config_def default_config_def minimal_everywhere_def
          minimal_steady_def reading_def)
  show ?thesis
    using h dry_run_escalation [OF h, of start minimal_steady 4 start]
    by (simp add: start_def test_config_def default_config_def eval_nat_numeral)
qed

subsection \<open>The loop without a battery\<close>

text \<open>
  Claim C7. The notification of the plugged battery is sent by the check after the sleep
  of one second (lines 616 and 632). A battery that the loop head of line 610 sees first
  ends the loop with nothing: with \<open>battery_returns\<close> the battery is missing at lines 423
  and 601, the notification of the missing battery is sent, and the first evaluation of
  \<^verbatim>\<open>while not is_battery_present()\<close> finds the battery. The run then goes on with the
  outer loop; no notification of the plugged battery and no sleep follow, for the
  default reminder 0 and for a reminder of one minute.
\<close>

theorem battery_back_unannounced:
  "\<not> is_battery_present (battery_returns 0)
   \<and> \<not> is_battery_present (battery_returns 1) \<and> is_ac_present (battery_returns 2)
   \<and> is_battery_present (battery_returns 3)
   \<and> no_battery_block default_config battery_returns 3 \<lparr>calls = 1, effects = []\<rparr> =
       (Next, \<lparr>calls = 4, effects = [Notify No_battery]\<rparr>)
   \<and> effects (run_main_loop default_config battery_returns 4 start) = [Notify No_battery]
   \<and> effects (run_main_loop reminder_config battery_returns 4 start) = [Notify No_battery]"
  by code_simp

end
